theory Spec2Isabelle
  imports Main "HOL-Library.Multiset"
begin

section \<open>The value layer\<close>

text \<open>
  A value node of the graph carries a \<open>data\<close> slot. The slot holds the sentinel
  \<open>UNCOMPUTED\<close>, an array (an object with a \<open>shape\<close> attribute) or some other
  object without a \<open>shape\<close> attribute. Nodes are keyed by \<open>id(node)\<close>, which the
  field \<open>ident\<close> stands for: two nodes with the same data are different keys.
\<close>

datatype 'v payload =
    UNCOMPUTED
  | Ndarray (shape: "nat list") 'v
  | Shapeless 'v

fun has_shape :: "'v payload \<Rightarrow> bool" where
  "has_shape (Ndarray s x) = True"
| "has_shape p = False"

record 'v node =
  ident :: nat
  data :: "'v payload"

text \<open>
  A gradient term handed to \<open>Grad.add\<close> is either the sentinel object
  \<open>core.UNDEFINED\<close> itself or a node.
\<close>

datatype 'v gterm = UNDEFINED | Expr "'v node"

text \<open>The exceptions the module raises or lets through.\<close>

datatype error =
    ValueError string
  | NameError string
  | KeyError nat
  | NotImplementedError string
  | ModeStackUnderflow
  | NoCurrentMode
  | OtherError string

section \<open>The evaluation-mode stack (module \<open>core\<close>)\<close>

datatype mode = Eval | Build | BuildEval

text \<open>
  Modelled from the spec: module \<open>core\<close> is not part of the sources. The spec gives a
  stack of modes where \<open>current_mode\<close> is the top, \<open>build_mode\<close> pushes \<open>build\<close>
  and \<open>pop_mode\<close> drops the top and fails with \<open>ModeStackUnderflow\<close> on the
  empty stack. The spec gives no result for \<open>current_mode\<close> on the empty stack; the
  model reports that as the failure \<open>NoCurrentMode\<close>.
\<close>

fun current_mode :: "mode list \<Rightarrow> error + mode" where
  "current_mode [] = Inl NoCurrentMode"
| "current_mode (m # ms) = Inr m"

definition build_mode :: "mode list \<Rightarrow> mode list" where
  "build_mode ms = Build # ms"

fun pop_mode :: "mode list \<Rightarrow> error + mode list" where
  "pop_mode [] = Inl ModeStackUnderflow"
| "pop_mode (m # ms) = Inr ms"

section \<open>The accumulator \<open>Grad\<close>\<close>

record 'v Grad =
  Grad_map :: "nat \<rightharpoonup> 'v node"
  Grad_outputs :: "'v node list"

text \<open>
  An operation of the graph: its input and output nodes and its
  \<open>update_gradient\<close> method. The method is code of the operation's class, so it is
  a field of the record. It receives the accumulator, runs under the process-wide mode
  stack and returns both; when it raises, the model keeps the exception only.
\<close>

record 'v op =
  op_inputs :: "'v node list"
  op_outputs :: "'v node list"
  update_gradient :: "mode list \<Rightarrow> 'v Grad \<Rightarrow> mode list \<times> (error + 'v Grad)"

text \<open>
  What the module takes from its collaborators: \<open>core.wrap\<close>, the \<open>+\<close> of gradient
  expressions, \<open>compute()\<close> of an expression, \<open>gof.graph.inputs\<close> and
  \<open>gof.graph.io_toposort\<close>.
\<close>

record 'v services =
  core_wrap :: "'v \<Rightarrow> 'v node"
  node_add :: "'v node \<Rightarrow> 'v node \<Rightarrow> 'v node"
  node_compute :: "'v node \<Rightarrow> 'v node"
  graph_inputs :: "'v node list \<Rightarrow> 'v node list"
  graph_io_toposort :: "'v node list \<Rightarrow> 'v node list \<Rightarrow> 'v op list"

definition contains :: "'v Grad \<Rightarrow> 'v node \<Rightarrow> bool" where
  "contains g item = (Grad_map g (ident item) \<noteq> None)"

definition getitem :: "'v Grad \<Rightarrow> 'v node \<Rightarrow> error + 'v node" where
  "getitem g item =
     (case Grad_map g (ident item) of
        None \<Rightarrow> Inl (KeyError (ident item))
      | Some val \<Rightarrow> Inr val)"

definition setitem :: "'v Grad \<Rightarrow> 'v node \<Rightarrow> 'v node \<Rightarrow> 'v Grad" where
  "setitem g item val = g\<lparr>Grad_map := (Grad_map g)(ident item \<mapsto> val)\<rparr>"

text \<open>
  \<open>Grad.add\<close>. The last four lines of the method, which both passing branches of the
  shape check reach, are \<open>accumulate\<close>. On a shape mismatch the source builds the arguments of its
  \<open>ValueError\<close> from the names \<open>v\<close> and \<open>dv\<close>, which are bound nowhere in the
  module: evaluating \<open>v.data.shape\<close> raises \<open>NameError\<close> before the
  \<open>ValueError\<close> exists.
\<close>

definition accumulate :: "'v services \<Rightarrow> 'v Grad \<Rightarrow> 'v node \<Rightarrow> 'v node \<Rightarrow> error + 'v Grad" where
  "accumulate S g r dr =
     (if contains g r
      then (case getitem g r of
              Inl e \<Rightarrow> Inl e
            | Inr cur \<Rightarrow> Inr (setitem g r (node_add S cur dr)))
      else Inr (setitem g r dr))"

definition add :: "'v services \<Rightarrow> 'v Grad \<Rightarrow> 'v node \<Rightarrow> 'v gterm \<Rightarrow> error + 'v Grad" where
  "add S g r dr =
     (case dr of
        UNDEFINED \<Rightarrow> Inr g
      | Expr d \<Rightarrow>
          if data r = UNCOMPUTED \<or> data d = UNCOMPUTED then accumulate S g r d
          else if \<not> has_shape (data r) then Inl (ValueError ''Grad::add r lacks shape: type='')
          else if \<not> has_shape (data d) then Inl (ValueError ''Grad::add dr lacks shape: type='')
          else if shape (data r) \<noteq> shape (data d) then Inl (NameError ''v'')
          else accumulate S g r d)"

definition add_output :: "'v services \<Rightarrow> 'v Grad \<Rightarrow> 'v node \<Rightarrow> 'v gterm \<Rightarrow> error + 'v Grad" where
  "add_output S g r dr =
     (case add S g r dr of
        Inl e \<Rightarrow> Inl e
      | Inr g' \<Rightarrow> Inr (g'\<lparr>Grad_outputs := Grad_outputs g' @ [r]\<rparr>))"

text \<open>\<open>Grad.__init__\<close>: the items of the dictionary, in its iteration order.\<close>

fun init_items :: "'v services \<Rightarrow> 'v Grad \<Rightarrow> ('v node \<times> 'v gterm) list \<Rightarrow> error + 'v Grad" where
  "init_items S g [] = Inr g"
| "init_items S g ((key, val) # dct) =
     (case add_output S g key val of
        Inl e \<Rightarrow> Inl e
      | Inr g' \<Rightarrow> init_items S g' dct)"

definition Grad_init :: "'v services \<Rightarrow> ('v node \<times> 'v gterm) list \<Rightarrow> error + 'v Grad" where
  "Grad_init S dct = init_items S \<lparr>Grad_map = Map.empty, Grad_outputs = []\<rparr> dct"

text \<open>
  \<open>Grad.bprop\<close>. The loop calls \<open>update_gradient\<close> of each operation in turn and
  stops at the first exception; the \<open>finally\<close> clause pops the mode stack on both
  paths, and an exception of the pop itself replaces the outcome of the body.
\<close>

fun bprop_loop :: "'v op list \<Rightarrow> mode list \<Rightarrow> 'v Grad \<Rightarrow> mode list \<times> (error + 'v Grad)" where
  "bprop_loop [] ms g = (ms, Inr g)"
| "bprop_loop (p # ps) ms g =
     (case update_gradient p ms g of
        (ms', Inl e) \<Rightarrow> (ms', Inl e)
      | (ms', Inr g') \<Rightarrow> bprop_loop ps ms' g')"

definition finally_pop_mode :: "mode list \<times> (error + 'a) \<Rightarrow> mode list \<times> (error + 'a)" where
  "finally_pop_mode body =
     (case body of
        (ms2, res) \<Rightarrow>
          (case pop_mode ms2 of
             Inl e \<Rightarrow> (ms2, Inl e)
           | Inr ms3 \<Rightarrow> (ms3, res)))"

definition bprop :: "'v services \<Rightarrow> mode list \<Rightarrow> 'v Grad \<Rightarrow> mode list \<times> (error + 'v Grad)" where
  "bprop S ms g =
     (let ms1 = build_mode ms;
          outputs = Grad_outputs g;
          inputs = graph_inputs S outputs
      in finally_pop_mode (bprop_loop (rev (graph_io_toposort S inputs outputs)) ms1 g))"

text \<open>
  \<open>Grad.__call__\<close>: the entry of the item, computed first when the mode is
  \<open>build_eval\<close>. \<open>compute()\<close> works on the entry in place; the model returns the
  computed entry.
\<close>

definition call :: "'v services \<Rightarrow> mode list \<Rightarrow> 'v Grad \<Rightarrow> 'v node \<Rightarrow> error + 'v node" where
  "call S ms g item =
     (case getitem g item of
        Inl e \<Rightarrow> Inl e
      | Inr rval \<Rightarrow>
          (case current_mode ms of
             Inl e \<Rightarrow> Inl e
           | Inr m \<Rightarrow> if m = BuildEval then Inr (node_compute S rval) else Inr rval))"

text \<open>
  The function \<open>grad\<close>. It returns the accumulator when \<open>param\<close> is \<open>None\<close> and
  an expression otherwise; \<open>cost_grad\<close> defaults to 1.
\<close>

datatype 'v grad_result = Accumulator "'v Grad" | Expression "'v node"

definition grad ::
  "('v::one) services \<Rightarrow> mode list \<Rightarrow> 'v node \<Rightarrow> 'v node option \<Rightarrow> 'v option
     \<Rightarrow> mode list \<times> (error + 'v grad_result)" where
  "grad S ms cost param cost_grad =
     (case current_mode ms of
        Inl e \<Rightarrow> (ms, Inl e)
      | Inr m \<Rightarrow>
          if m = Eval
          then (ms, Inl (NotImplementedError
                  ''Gradient-related functions are not available in eval mode''))
          else
            (case Grad_init S [(cost, Expr (core_wrap S
                     (case cost_grad of None \<Rightarrow> 1 | Some c \<Rightarrow> c)))] of
               Inl e \<Rightarrow> (ms, Inl e)
             | Inr rval \<Rightarrow>
                 (case bprop S ms rval of
                    (ms', Inl e) \<Rightarrow> (ms', Inl e)
                  | (ms', Inr rval') \<Rightarrow>
                      (case param of
                         None \<Rightarrow> (ms', Inr (Accumulator rval'))
                       | Some p \<Rightarrow>
                           (case call S ms' rval' p of
                              Inl e \<Rightarrow> (ms', Inl e)
                            | Inr x \<Rightarrow> (ms', Inr (Expression x)))))))"

section \<open>Notions the properties are stated with\<close>


text \<open>
  The shape rules of \<open>add\<close>: one of the two payloads is \<open>UNCOMPUTED\<close>, or both
  have a shape and the shapes agree.
\<close>

definition passes_shape_rules :: "'v node \<Rightarrow> 'v node \<Rightarrow> bool" where
  "passes_shape_rules r d \<longleftrightarrow>
     data r = UNCOMPUTED \<or> data d = UNCOMPUTED \<or>
     (has_shape (data r) \<and> has_shape (data d) \<and> shape (data r) = shape (data d))"

text \<open>
  \<open>feeds p c\<close>: operation \<open>p\<close> produces a node that operation \<open>c\<close> consumes, so
  the gradient of that node receives a contribution from \<open>c\<close>. The contract of
  \<open>io_toposort\<close> is that of a forward topological order: an operation comes after
  every operation that produces one of its inputs.
\<close>

definition feeds :: "'v op \<Rightarrow> 'v op \<Rightarrow> bool" where
  "feeds p c \<longleftrightarrow> (\<exists>n \<in> set (op_outputs p). \<exists>m \<in> set (op_inputs c). ident n = ident m)"

definition forward_topological :: "'v op list \<Rightarrow> bool" where
  "forward_topological ord \<longleftrightarrow>
     (\<forall>j < length ord. \<forall>i < length ord. feeds (ord ! i) (ord ! j) \<longrightarrow> i < j)"

text \<open>The operations \<open>bprop\<close> traverses for an accumulator, in forward order.\<close>

definition traversal :: "'v services \<Rightarrow> 'v Grad \<Rightarrow> 'v op list" where
  "traversal S g =
     graph_io_toposort S (graph_inputs S (Grad_outputs g)) (Grad_outputs g)"

text \<open>
  An \<open>update_gradient\<close> that leaves the mode stack as it found it, whether it returns
  or raises.
\<close>

definition keeps_modes :: "'v op \<Rightarrow> bool" where
  "keeps_modes p \<longleftrightarrow> (\<forall>ms g. fst (update_gradient p ms g) = ms)"

text \<open>The accumulator with the single root \<open>cost\<close> and the entry \<open>wrap(c)\<close> for it.\<close>

definition seeded :: "'v services \<Rightarrow> 'v node \<Rightarrow> 'v \<Rightarrow> 'v Grad" where
  "seeded S cost c = \<lparr>Grad_map = [ident cost \<mapsto> core_wrap S c], Grad_outputs = [cost]\<rparr>"

text \<open>An \<open>update_gradient\<close> that, when it returns, has left the entry of a node alone.\<close>

definition keeps_entry :: "'v node \<Rightarrow> 'v op \<Rightarrow> bool" where
  "keeps_entry n p \<longleftrightarrow>
     (\<forall>ms g ms' g'. update_gradient p ms g = (ms', Inr g')
        \<longrightarrow> Grad_map g' (ident n) = Grad_map g (ident n))"

section \<open>A small graph\<close>

text \<open>
  The chain \<open>x \<rightarrow> h \<rightarrow> cost\<close> over integer payloads. Each operation hands the
  gradient of its output to its input, as the gradient method of an identity operation
  does: it looks the output up and calls \<open>add\<close> for the input.
\<close>

definition pass_gradient ::
  "'v services \<Rightarrow> 'v node \<Rightarrow> 'v node \<Rightarrow> mode list \<Rightarrow> 'v Grad \<Rightarrow> mode list \<times> (error + 'v Grad)" where
  "pass_gradient S out inp ms g =
     (ms, case getitem g out of Inl e \<Rightarrow> Inl e | Inr d \<Rightarrow> add S g inp (Expr d))"

definition ex_val :: "int node \<Rightarrow> int" where
  "ex_val n = (case data n of UNCOMPUTED \<Rightarrow> 0 | Ndarray s x \<Rightarrow> x | Shapeless x \<Rightarrow> x)"

definition ex_values :: "int services" where
  "ex_values =
     \<lparr>core_wrap = (\<lambda>c. \<lparr>ident = 0, data = Ndarray [] c\<rparr>),
      node_add = (\<lambda>a b. \<lparr>ident = 0, data = Ndarray [] (ex_val a + ex_val b)\<rparr>),
      node_compute = (\<lambda>n. if data n = UNCOMPUTED then n\<lparr>data := Ndarray [] 0\<rparr> else n),
      graph_inputs = (\<lambda>outs. []),
      graph_io_toposort = (\<lambda>ins outs. [])\<rparr>"

definition ex_x :: "int node" where
  "ex_x = \<lparr>ident = 1, data = UNCOMPUTED\<rparr>"

definition ex_h :: "int node" where
  "ex_h = \<lparr>ident = 2, data = UNCOMPUTED\<rparr>"

definition ex_cost :: "int node" where
  "ex_cost = \<lparr>ident = 3, data = UNCOMPUTED\<rparr>"

definition ex_op1 :: "int op" where
  "ex_op1 = \<lparr>op_inputs = [ex_x], op_outputs = [ex_h],
             update_gradient = pass_gradient ex_values ex_h ex_x\<rparr>"

definition ex_op2 :: "int op" where
  "ex_op2 = \<lparr>op_inputs = [ex_h], op_outputs = [ex_cost],
             update_gradient = pass_gradient ex_values ex_cost ex_h\<rparr>"

definition ex_services :: "int services" where
  "ex_services =
     ex_values\<lparr>graph_inputs := (\<lambda>outs. [ex_x]),
               graph_io_toposort := (\<lambda>ins outs. [ex_op1, ex_op2])\<rparr>"

text \<open>The same chain where the gradient method of the second operation raises.\<close>

definition ex_raising :: "int op" where
  "ex_raising = \<lparr>op_inputs = [ex_h], op_outputs = [ex_cost],
                 update_gradient = (\<lambda>ms g. (ms, Inl (OtherError ''update_gradient'')))\<rparr>"

definition ex_services_raising :: "int services" where
  "ex_services_raising =
     ex_values\<lparr>graph_inputs := (\<lambda>outs. [ex_x]),
               graph_io_toposort := (\<lambda>ins outs. [ex_op1, ex_raising])\<rparr>"

text \<open>
  An operation whose gradient method reads the current mode: it returns the accumulator
  as it is under \<open>build\<close> and raises under every other mode.
\<close>

definition ex_build_only :: "int op" where
  "ex_build_only = \<lparr>op_inputs = [ex_h], op_outputs = [ex_cost],
                    update_gradient = (\<lambda>ms g.
                      (ms, if current_mode ms = Inr Build then Inr g
                           else Inl (OtherError ''not build'')))\<rparr>"

definition ex_services_build_only :: "int services" where
  "ex_services_build_only =
     ex_values\<lparr>graph_inputs := (\<lambda>outs. [ex_h]),
               graph_io_toposort := (\<lambda>ins outs. [ex_build_only])\<rparr>"

text \<open>The accumulator after the backward pass over the chain, seeded with \<open>wrap(1)\<close>.\<close>

definition ex_one :: "int node" where
  "ex_one = \<lparr>ident = 0, data = Ndarray [] 1\<rparr>"

definition ex_final :: "int Grad" where
  "ex_final = \<lparr>Grad_map = [3 \<mapsto> ex_one, 2 \<mapsto> ex_one, 1 \<mapsto> ex_one], Grad_outputs = [ex_cost]\<rparr>"



text \<open>Two arrays of different shapes.\<close>

definition ex_r2 :: "int node" where
  "ex_r2 = \<lparr>ident = 7, data = Ndarray [2] 0\<rparr>"

definition ex_d3 :: "int node" where
  "ex_d3 = \<lparr>ident = 8, data = Ndarray [3] 0\<rparr>"

definition ex_empty :: "int Grad" where
  "ex_empty = \<lparr>Grad_map = Map.empty, Grad_outputs = []\<rparr>"

section \<open>Lookup\<close>

text \<open>
  C9. Looking up a node without an entry fails with the missing-gradient error (the
  \<open>KeyError\<close> of the dictionary), and looking up a node with an entry returns the
  entry.
\<close>

theorem getitem_missing_or_entry:
  "(Grad_map g (ident n) = None \<longrightarrow> getitem g n = Inl (KeyError (ident n))) \<and>
   (\<forall>e. Grad_map g (ident n) = Some e \<longrightarrow> getitem g n = Inr e)"
  by (simp add: getitem_def)

theorem getitem_missing_or_entry_witness:
  "Grad_map ex_empty (ident ex_x) = None \<and> getitem ex_empty ex_x = Inl (KeyError 1) \<and>
   Grad_map (setitem ex_empty ex_x ex_d3) (ident ex_x) = Some ex_d3 \<and>
   getitem (setitem ex_empty ex_x ex_d3) ex_x = Inr ex_d3"
  using getitem_missing_or_entry [of ex_empty ex_x]
    getitem_missing_or_entry [of "setitem ex_empty ex_x ex_d3" ex_x]
  by (simp add: ex_empty_def ex_x_def setitem_def)

section \<open>Contributions\<close>

text \<open>
  C8. Contributing \<open>UNDEFINED\<close> returns without an error and leaves the whole
  accumulator as it was, for every node: a node without an entry stays without one, and
  an entry that exists is not touched.
\<close>

theorem add_UNDEFINED_noop: "add S g r UNDEFINED = Inr g"
  by (simp add: add_def)

text \<open>
  C10. Seeding a node with \<open>UNDEFINED\<close> through \<open>add_output\<close> appends the node to
  the outputs and changes nothing else, so a node that had no entry is a root whose
  lookup fails with the missing-gradient error; an accumulator built from the single
  item \<open>(n, UNDEFINED)\<close> is in that state.
\<close>

theorem add_output_UNDEFINED:
  "add_output S g n UNDEFINED = Inr (g\<lparr>Grad_outputs := Grad_outputs g @ [n]\<rparr>) \<and>
   (\<not> contains g n \<longrightarrow>
      getitem (g\<lparr>Grad_outputs := Grad_outputs g @ [n]\<rparr>) n = Inl (KeyError (ident n))) \<and>
   Grad_init S [(n, UNDEFINED)] = Inr \<lparr>Grad_map = Map.empty, Grad_outputs = [n]\<rparr> \<and>
   getitem \<lparr>Grad_map = Map.empty, Grad_outputs = [n]\<rparr> n = Inl (KeyError (ident n))"
  by (auto simp add: add_output_def add_def contains_def getitem_def Grad_init_def
      split: option.splits)

theorem add_output_UNDEFINED_witness:
  "\<not> contains ex_empty ex_cost \<and>
   add_output ex_values ex_empty ex_cost UNDEFINED =
     Inr \<lparr>Grad_map = Map.empty, Grad_outputs = [ex_cost]\<rparr> \<and>
   getitem \<lparr>Grad_map = Map.empty, Grad_outputs = [ex_cost]\<rparr> ex_cost = Inl (KeyError 3)"
  using add_output_UNDEFINED [of ex_values ex_empty ex_cost]
  by (simp add: contains_def ex_empty_def ex_cost_def)

text \<open>
  C4. A contribution of shape \<open>[3]\<close> to a node of shape \<open>[2]\<close>, neither of them
  \<open>UNCOMPUTED\<close>: the caller sees a \<open>NameError\<close> for the unbound name \<open>v\<close>,
  not the \<open>ValueError\<close> that reports the two shapes.
\<close>

theorem add_shape_mismatch_raises_NameError:
  "add ex_values ex_empty ex_r2 (Expr ex_d3) = Inl (NameError ''v'')"
  by (simp add: add_def ex_r2_def ex_d3_def)

section \<open>The entry point in \<open>eval\<close> mode\<close>

text \<open>
  C5. When the current mode is \<open>eval\<close>, \<open>grad\<close> fails with the unsupported-mode
  error (\<open>NotImplementedError\<close>) for every cost node, every \<open>param\<close> and every
  \<open>cost_grad\<close>. The outcome is the same for all services, so no accumulator was
  built, no term was wrapped or added and no operation was visited, and the mode stack
  is the one the call found.
\<close>

theorem grad_eval_mode_fails:
  "current_mode ms = Inr Eval \<Longrightarrow>
   grad S ms cost param cost_grad =
     (ms, Inl (NotImplementedError ''Gradient-related functions are not available in eval mode''))"
  by (simp add: grad_def)

theorem grad_eval_mode_fails_witness:
  "current_mode [Eval, BuildEval] = Inr Eval \<and>
   grad ex_services [Eval, BuildEval] ex_cost (Some ex_x) None =
     ([Eval, BuildEval], Inl (NotImplementedError ''Gradient-related functions are not available in eval mode'')) \<and>
   grad ex_services_raising [Eval, BuildEval] ex_cost None (Some 5) =
     ([Eval, BuildEval], Inl (NotImplementedError ''Gradient-related functions are not available in eval mode''))"
  using grad_eval_mode_fails [of "[Eval, BuildEval]" ex_services ex_cost "Some ex_x" None]
    grad_eval_mode_fails [of "[Eval, BuildEval]" ex_services_raising ex_cost None "Some 5"]
  by simp

section \<open>The backward traversal\<close>

lemma bprop_loop_keeps_modes:
  "\<forall>p \<in> set ps. keeps_modes p \<Longrightarrow> fst (bprop_loop ps ms g) = ms"
proof (induction ps arbitrary: ms g)
  case Nil
  show ?case by simp
next
  case (Cons p ps)
  from Cons.prems have k: "fst (update_gradient p ms g) = ms"
    by (simp add: keeps_modes_def)
  obtain ms' r where u: "update_gradient p ms g = (ms', r)"
    by (cases "update_gradient p ms g")
  with k have [simp]: "ms' = ms" by simp
  show ?case
  proof (cases r)
    case (Inl e)
    with u show ?thesis by simp
  next
    case (Inr g')
    with u Cons.IH [of ms g'] Cons.prems show ?thesis by simp
  qed
qed

lemma bprop_loop_append:
  "bprop_loop (pre @ X # post) ms g =
     (case bprop_loop pre ms g of
        (ms', Inl e) \<Rightarrow> (ms', Inl e)
      | (ms', Inr g') \<Rightarrow>
          (case update_gradient X ms' g' of
             (ms'', Inl e) \<Rightarrow> (ms'', Inl e)
           | (ms'', Inr g'') \<Rightarrow> bprop_loop post ms'' g''))"
  by (induction pre arbitrary: ms g) (auto split: prod.splits sum.splits)

lemma bprop_keeps_modes:
  assumes "\<forall>p \<in> set (traversal S g). keeps_modes p"
  shows "fst (bprop S ms g) = ms"
proof -
  let ?ps = "rev (graph_io_toposort S (graph_inputs S (Grad_outputs g)) (Grad_outputs g))"
  from assms have "\<forall>p \<in> set ?ps. keeps_modes p"
    by (simp add: traversal_def)
  then have "fst (bprop_loop ?ps (Build # ms) g) = Build # ms"
    by (rule bprop_loop_keeps_modes)
  then obtain r where "bprop_loop ?ps (Build # ms) g = (Build # ms, r)"
    by (cases "bprop_loop ?ps (Build # ms) g") simp
  then show ?thesis
    by (simp add: bprop_def build_mode_def finally_pop_mode_def)
qed

lemma bprop_unfold:
  "bprop S ms g =
     (case bprop_loop (rev (traversal S g)) (Build # ms) g of
        (ms2, res) \<Rightarrow>
          (case ms2 of
             [] \<Rightarrow> ([], Inl ModeStackUnderflow)
           | m # rest \<Rightarrow> (rest, res)))"
  by (simp add: bprop_def traversal_def build_mode_def finally_pop_mode_def Let_def
      split: prod.splits list.splits)

lemma bprop_loop_prefix_modes:
  assumes ops: "\<forall>p \<in> set ps. keeps_modes p" and split: "ps = pre @ X # post"
  shows "fst (bprop_loop pre ms g) = ms"
proof -
  from ops split have "\<forall>p \<in> set pre. keeps_modes p" by simp
  then show ?thesis by (rule bprop_loop_keeps_modes)
qed

text \<open>
  C3. \<open>bprop\<close> pushes \<open>build\<close> on entry and pops on every path out. The loop over
  the reversed traversal starts under the caller's stack with \<open>build\<close> pushed on it,
  and \<open>bprop\<close> hands back the outcome of the loop, a return or an exception alike,
  with the top of the stack the loop left popped. When every \<open>update_gradient\<close> of
  the traversal leaves the mode stack as it found it, each of them runs with \<open>build\<close>
  as the current mode on top of the caller's stack, and the stack after \<open>bprop\<close> is
  the stack before it, and so is the current mode, whether \<open>bprop\<close> returns or an
  \<open>update_gradient\<close> raises.
\<close>

theorem bprop_restores_mode:
  "bprop S ms g =
     (case bprop_loop (rev (traversal S g)) (Build # ms) g of
        (ms2, res) \<Rightarrow>
          (case ms2 of
             [] \<Rightarrow> ([], Inl ModeStackUnderflow)
           | m # rest \<Rightarrow> (rest, res))) \<and>
   ((\<forall>p \<in> set (traversal S g). keeps_modes p) \<longrightarrow>
      (\<forall>pre X post. rev (traversal S g) = pre @ X # post \<longrightarrow>
         fst (bprop_loop pre (Build # ms) g) = Build # ms \<and>
         current_mode (fst (bprop_loop pre (Build # ms) g)) = Inr Build) \<and>
      fst (bprop_loop (rev (traversal S g)) (Build # ms) g) = Build # ms \<and>
      bprop S ms g = (ms, snd (bprop_loop (rev (traversal S g)) (Build # ms) g)) \<and>
      fst (bprop S ms g) = ms \<and>
      current_mode (fst (bprop S ms g)) = current_mode ms)"
proof (intro conjI impI allI)
  show "bprop S ms g =
     (case bprop_loop (rev (traversal S g)) (Build # ms) g of
        (ms2, res) \<Rightarrow>
          (case ms2 of
             [] \<Rightarrow> ([], Inl ModeStackUnderflow)
           | m # rest \<Rightarrow> (rest, res)))"
    by (rule bprop_unfold)
next
  fix pre X post
  assume ops: "\<forall>p \<in> set (traversal S g). keeps_modes p"
    and split: "rev (traversal S g) = pre @ X # post"
  from ops have "\<forall>p \<in> set (rev (traversal S g)). keeps_modes p" by simp
  then have pre: "fst (bprop_loop pre (Build # ms) g) = Build # ms"
    using split by (rule bprop_loop_prefix_modes)
  show "fst (bprop_loop pre (Build # ms) g) = Build # ms" by (rule pre)
  show "current_mode (fst (bprop_loop pre (Build # ms) g)) = Inr Build"
    by (simp add: pre)
next
  assume ops: "\<forall>p \<in> set (traversal S g). keeps_modes p"
  then have "\<forall>p \<in> set (rev (traversal S g)). keeps_modes p" by simp
  then have loop: "fst (bprop_loop (rev (traversal S g)) (Build # ms) g) = Build # ms"
    by (rule bprop_loop_keeps_modes)
  show "fst (bprop_loop (rev (traversal S g)) (Build # ms) g) = Build # ms"
    by (rule loop)
  from loop show run: "bprop S ms g = (ms, snd (bprop_loop (rev (traversal S g)) (Build # ms) g))"
    by (cases "bprop_loop (rev (traversal S g)) (Build # ms) g") (simp add: bprop_unfold)
  from run show "fst (bprop S ms g) = ms" by simp
  from run show "current_mode (fst (bprop S ms g)) = current_mode ms" by simp
qed

theorem bprop_restores_mode_witness:
  "keeps_modes ex_op1 \<and> keeps_modes ex_raising \<and> keeps_modes ex_build_only \<and>
   traversal ex_services_raising (setitem (ex_empty\<lparr>Grad_outputs := [ex_cost]\<rparr>) ex_cost ex_d3)
     = [ex_op1, ex_raising] \<and>
   bprop ex_services_raising [BuildEval] (setitem (ex_empty\<lparr>Grad_outputs := [ex_cost]\<rparr>) ex_cost ex_d3)
     = ([BuildEval], Inl (OtherError ''update_gradient'')) \<and>
   rev (traversal ex_services_build_only ex_empty) = [] @ ex_build_only # [] \<and>
   current_mode (fst (bprop_loop [] (Build # [BuildEval]) ex_empty)) = Inr Build \<and>
   bprop ex_services_build_only [BuildEval] ex_empty = ([BuildEval], Inr ex_empty) \<and>
   bprop_loop [ex_build_only] [BuildEval] ex_empty = ([BuildEval], Inl (OtherError ''not build'')) \<and>
   bprop_loop [ex_build_only] (Eval # [BuildEval]) ex_empty
     = ([Eval, BuildEval], Inl (OtherError ''not build''))"
proof -
  let ?g = "setitem (ex_empty\<lparr>Grad_outputs := [ex_cost]\<rparr>) ex_cost ex_d3"
  have k: "keeps_modes ex_op1" "keeps_modes ex_raising" "keeps_modes ex_build_only"
    by (simp_all add: keeps_modes_def ex_op1_def ex_raising_def ex_build_only_def
        pass_gradient_def)
  have t1: "traversal ex_services_raising ?g = [ex_op1, ex_raising]"
    by (simp add: traversal_def ex_services_raising_def ex_values_def)
  have t2: "traversal ex_services_build_only ex_empty = [ex_build_only]"
    by (simp add: traversal_def ex_services_build_only_def ex_values_def)
  have h1: "\<forall>p \<in> set (traversal ex_services_raising ?g). keeps_modes p"
    by (simp add: t1 k)
  have h2: "\<forall>p \<in> set (traversal ex_services_build_only ex_empty). keeps_modes p"
    by (simp add: t2 k)
  have s2: "rev (traversal ex_services_build_only ex_empty) = [] @ ex_build_only # []"
    by (simp add: t2)
  have l1: "snd (bprop_loop (rev (traversal ex_services_raising ?g)) (Build # [BuildEval]) ?g)
      = Inl (OtherError ''update_gradient'')"
    by (simp add: t1 ex_raising_def)
  have l2: "snd (bprop_loop (rev (traversal ex_services_build_only ex_empty))
      (Build # [BuildEval]) ex_empty) = Inr ex_empty"
    by (simp add: t2 ex_build_only_def)
  have m: "bprop_loop [ex_build_only] [BuildEval] ex_empty
      = ([BuildEval], Inl (OtherError ''not build''))"
    "bprop_loop [ex_build_only] (Eval # [BuildEval]) ex_empty
      = ([Eval, BuildEval], Inl (OtherError ''not build''))"
    by (simp_all add: ex_build_only_def)
  from bprop_restores_mode [of ex_services_raising "[BuildEval]" ?g] h1
  have "bprop ex_services_raising [BuildEval] ?g =
      ([BuildEval], snd (bprop_loop (rev (traversal ex_services_raising ?g))
         (Build # [BuildEval]) ?g))"
    by blast
  then have r1: "bprop ex_services_raising [BuildEval] ?g
      = ([BuildEval], Inl (OtherError ''update_gradient''))"
    by (simp only: l1)
  from bprop_restores_mode [of ex_services_build_only "[BuildEval]" ex_empty] h2 s2
  have "bprop ex_services_build_only [BuildEval] ex_empty =
      ([BuildEval], snd (bprop_loop (rev (traversal ex_services_build_only ex_empty))
         (Build # [BuildEval]) ex_empty))"
    and r3: "current_mode (fst (bprop_loop [] (Build # [BuildEval]) ex_empty)) = Inr Build"
    by blast+
  then have r2: "bprop ex_services_build_only [BuildEval] ex_empty = ([BuildEval], Inr ex_empty)"
    by (simp only: l2)
  from k t1 r1 s2 r3 r2 m show ?thesis by blast
qed

text \<open>
  C1. Let the order of \<open>io_toposort\<close> be a forward topological order, and let
  \<open>X\<close> be an operation of the reverse traversal, \<open>pre\<close> the operations visited
  before it and \<open>post\<close> those after it. Every operation of the traversal that
  consumes an output of \<open>X\<close> is in \<open>pre\<close> and is neither \<open>X\<close> nor in
  \<open>post\<close>; and \<open>update_gradient\<close> of \<open>X\<close> runs, if at all, on the accumulator that
  the completed calls for all of \<open>pre\<close> have left.
\<close>

theorem bprop_consumers_first:
  assumes topo: "forward_topological (traversal S g)"
    and split: "rev (traversal S g) = pre @ X # post"
  shows "(\<forall>Y \<in> set (traversal S g). feeds X Y \<longrightarrow> Y \<in> set pre \<and> Y \<notin> set (X # post)) \<and>
         bprop S ms g =
           finally_pop_mode
             (case bprop_loop pre (build_mode ms) g of
                (ms', Inl e) \<Rightarrow> (ms', Inl e)
              | (ms', Inr g') \<Rightarrow>
                  (case update_gradient X ms' g' of
                     (ms'', Inl e) \<Rightarrow> (ms'', Inl e)
                   | (ms'', Inr g'') \<Rightarrow> bprop_loop post ms'' g''))"
proof
  let ?ord = "traversal S g"
  from split have "rev (rev ?ord) = rev (pre @ X # post)" by simp
  then have ord: "?ord = rev post @ X # rev pre" by simp
  have X_at: "?ord ! length post = X" and X_lt: "length post < length ?ord"
    by (simp_all add: ord nth_append)
  show "\<forall>Y \<in> set ?ord. feeds X Y \<longrightarrow> Y \<in> set pre \<and> Y \<notin> set (X # post)"
  proof (intro ballI impI)
    fix Y
    assume Y: "Y \<in> set ?ord" and f: "feeds X Y"
    have notin: "Y \<notin> set (X # post)"
    proof
      assume "Y \<in> set (X # post)"
      then have "Y \<in> set (rev post @ [X])" by auto
      then obtain j where j: "j < length (rev post @ [X])" and at: "(rev post @ [X]) ! j = Y"
        unfolding in_set_conv_nth by blast
      from j have jle: "j \<le> length post" by simp
      have "?ord = (rev post @ [X]) @ rev pre" by (simp add: ord)
      then have "?ord ! j = (rev post @ [X]) ! j"
        using j by (metis nth_append)
      with at have Yj: "?ord ! j = Y" by simp
      from j X_lt have jlt: "j < length ?ord" by simp
      from topo jlt X_lt f X_at Yj have "length post < j"
        unfolding forward_topological_def by blast
      with jle show False by simp
    qed
    with Y show "Y \<in> set pre \<and> Y \<notin> set (X # post)"
      by (auto simp: ord)
  qed
next
  have "bprop S ms g = finally_pop_mode (bprop_loop (rev (traversal S g)) (build_mode ms) g)"
    by (simp add: bprop_def traversal_def Let_def)
  then show "bprop S ms g =
           finally_pop_mode
             (case bprop_loop pre (build_mode ms) g of
                (ms', Inl e) \<Rightarrow> (ms', Inl e)
              | (ms', Inr g') \<Rightarrow>
                  (case update_gradient X ms' g' of
                     (ms'', Inl e) \<Rightarrow> (ms'', Inl e)
                   | (ms'', Inr g'') \<Rightarrow> bprop_loop post ms'' g''))"
    by (simp only: split bprop_loop_append)
qed


theorem bprop_consumers_first_witness:
  "forward_topological (traversal ex_services (seeded ex_services ex_cost 1)) \<and>
   rev (traversal ex_services (seeded ex_services ex_cost 1)) = [ex_op2] @ ex_op1 # [] \<and>
   ex_op2 \<in> set (traversal ex_services (seeded ex_services ex_cost 1)) \<and>
   feeds ex_op1 ex_op2 \<and> ex_op2 \<in> set [ex_op2] \<and> ex_op2 \<notin> set [ex_op1] \<and>
   bprop ex_services [BuildEval] (seeded ex_services ex_cost 1) =
     finally_pop_mode
       (case bprop_loop [ex_op2] (build_mode [BuildEval]) (seeded ex_services ex_cost 1) of
          (ms', Inl e) \<Rightarrow> (ms', Inl e)
        | (ms', Inr g') \<Rightarrow>
            (case update_gradient ex_op1 ms' g' of
               (ms'', Inl e) \<Rightarrow> (ms'', Inl e)
             | (ms'', Inr g'') \<Rightarrow> bprop_loop [] ms'' g''))"
proof -
  let ?g = "seeded ex_services ex_cost 1"
  have t: "traversal ex_services ?g = [ex_op1, ex_op2]"
    by (simp add: traversal_def ex_services_def ex_values_def)
  have f12: "feeds ex_op1 ex_op2"
    by (simp add: feeds_def ex_op1_def ex_op2_def ex_h_def)
  have nf: "\<not> feeds ex_op1 ex_op1" "\<not> feeds ex_op2 ex_op1" "\<not> feeds ex_op2 ex_op2"
    by (simp_all add: feeds_def ex_op1_def ex_op2_def ex_h_def ex_x_def ex_cost_def)
  have topo: "forward_topological (traversal ex_services ?g)"
    unfolding t forward_topological_def using nf
    by (auto simp: less_Suc_eq nth_Cons')
  have split: "rev (traversal ex_services ?g) = [ex_op2] @ ex_op1 # []"
    by (simp add: t)
  from bprop_consumers_first [OF topo split, of "[BuildEval]"] topo split f12 t
  show ?thesis by simp
qed

section \<open>The entry point outside \<open>eval\<close> mode\<close>

lemma Grad_init_seed:
  "passes_shape_rules cost (core_wrap S c) \<Longrightarrow>
   Grad_init S [(cost, Expr (core_wrap S c))] = Inr (seeded S cost c)"
  by (auto simp add: Grad_init_def add_output_def add_def accumulate_def contains_def
      setitem_def seeded_def passes_shape_rules_def)

lemma bprop_loop_keeps_entry:
  "\<forall>p \<in> set ps. keeps_entry n p \<Longrightarrow> bprop_loop ps ms g = (ms', Inr g')
     \<Longrightarrow> Grad_map g' (ident n) = Grad_map g (ident n)"
proof (induction ps arbitrary: ms g)
  case Nil
  then show ?case by simp
next
  case (Cons p ps)
  obtain ms1 r where u: "update_gradient p ms g = (ms1, r)"
    by (cases "update_gradient p ms g")
  show ?case
  proof (cases r)
    case (Inl e)
    with u Cons.prems(2) show ?thesis by simp
  next
    case (Inr g1)
    with u Cons.prems(2) have rest: "bprop_loop ps ms1 g1 = (ms', Inr g')" by simp
    from Cons.prems(1) have "keeps_entry n p" by simp
    with u Inr have "Grad_map g1 (ident n) = Grad_map g (ident n)"
      unfolding keeps_entry_def by blast
    moreover from Cons.prems(1) have "\<forall>q \<in> set ps. keeps_entry n q" by simp
    then have "Grad_map g' (ident n) = Grad_map g1 (ident n)"
      using rest by (rule Cons.IH)
    ultimately show ?thesis by simp
  qed
qed

lemma bprop_keeps_entry:
  assumes ops: "\<forall>p \<in> set (traversal S g). keeps_entry n p"
    and bp: "bprop S ms g = (ms', Inr g')"
  shows "Grad_map g' (ident n) = Grad_map g (ident n)"
proof -
  let ?ps = "rev (traversal S g)"
  obtain ms2 r where l: "bprop_loop ?ps (build_mode ms) g = (ms2, r)"
    by (cases "bprop_loop ?ps (build_mode ms) g")
  have "bprop S ms g = finally_pop_mode (bprop_loop ?ps (build_mode ms) g)"
    by (simp add: bprop_def traversal_def Let_def)
  with bp l have "r = Inr g'"
    by (auto simp: finally_pop_mode_def split: sum.splits)
  with l have "bprop_loop ?ps (build_mode ms) g = (ms2, Inr g')" by simp
  moreover from ops have "\<forall>p \<in> set ?ps. keeps_entry n p" by simp
  ultimately show ?thesis by (rule bprop_loop_keeps_entry [rotated])
qed

lemma ex_pass_keeps_modes: "fst (pass_gradient S out inp ms g) = ms"
  by (simp add: pass_gradient_def)

lemma ex_pass_keeps_entry:
  "ident inp \<noteq> ident n \<Longrightarrow> pass_gradient S out inp ms g = (ms', Inr g')
     \<Longrightarrow> Grad_map g' (ident n) = Grad_map g (ident n)"
  by (auto simp add: pass_gradient_def add_def accumulate_def setitem_def contains_def getitem_def
      split: sum.splits option.splits if_splits)

lemma ex_pass_op:
  "ident inp \<noteq> ident n \<Longrightarrow> update_gradient p = pass_gradient S out inp
     \<Longrightarrow> keeps_modes p \<and> keeps_entry n p"
  unfolding keeps_modes_def keeps_entry_def
  using ex_pass_keeps_entry [of inp n S out] by (simp add: ex_pass_keeps_modes)

lemma ex_traversal: "traversal ex_services g = [ex_op1, ex_op2]"
  by (simp add: traversal_def ex_services_def ex_values_def)

lemma ex_wrap: "core_wrap ex_services c = \<lparr>ident = 0, data = Ndarray [] c\<rparr>"
  by (simp add: ex_services_def ex_values_def)

lemma ex_compute_one: "node_compute ex_services ex_one = ex_one"
  by (simp add: ex_services_def ex_values_def ex_one_def)

lemma ex_bprop_loop:
  "bprop_loop [ex_op2, ex_op1] ms (seeded ex_services ex_cost 1) = (ms, Inr ex_final)"
  by (simp add: seeded_def ex_wrap ex_op1_def ex_op2_def pass_gradient_def getitem_def add_def
      accumulate_def contains_def setitem_def ex_cost_def ex_h_def ex_x_def ex_final_def ex_one_def)

lemma ex_bprop:
  "bprop ex_services (m # ms) (seeded ex_services ex_cost 1) = (m # ms, Inr ex_final)"
proof -
  have "bprop ex_services (m # ms) (seeded ex_services ex_cost 1) =
        finally_pop_mode (bprop_loop (rev (traversal ex_services (seeded ex_services ex_cost 1)))
          (build_mode (m # ms)) (seeded ex_services ex_cost 1))"
    by (simp add: bprop_def traversal_def Let_def)
  also have "rev (traversal ex_services (seeded ex_services ex_cost 1)) = [ex_op2, ex_op1]"
    by (simp add: ex_traversal)
  finally show ?thesis
    by (simp only: ex_bprop_loop) (simp add: finally_pop_mode_def build_mode_def)
qed

text \<open>
  C6. With \<open>cost_grad\<close> left at its default and a seed that passes the shape rules,
  the accumulator starts as the single entry \<open>wrap(1)\<close> for \<open>cost\<close> with
  \<open>cost\<close> as its only root. When the backward pass returns and no operation of the
  traversal touches the mode stack or the entry of \<open>cost\<close>, the entry of \<open>cost\<close>
  in the returned accumulator is \<open>wrap(1)\<close>, and \<open>grad(cost, cost)\<close> returns it
  (after \<open>compute()\<close> on it when the mode is \<open>build_eval\<close>).
\<close>

theorem grad_default_seed:
  assumes mode: "current_mode ms = Inr m" "m \<noteq> Eval"
    and shape: "passes_shape_rules cost (core_wrap S 1)"
    and ops: "\<forall>p \<in> set (traversal S (seeded S cost 1)). keeps_modes p \<and> keeps_entry cost p"
    and bp: "snd (bprop S ms (seeded S cost 1)) = Inr g1"
  shows "Grad_init S [(cost, Expr (core_wrap S 1))] = Inr (seeded S cost 1) \<and>
         getitem (seeded S cost 1) cost = Inr (core_wrap S 1) \<and>
         grad S ms cost None None = (ms, Inr (Accumulator g1)) \<and>
         getitem g1 cost = Inr (core_wrap S 1) \<and>
         grad S ms cost (Some cost) None =
           (ms, Inr (Expression
                  (if m = BuildEval then node_compute S (core_wrap S 1) else core_wrap S 1)))"
proof -
  let ?g0 = "seeded S cost 1"
  have init: "Grad_init S [(cost, Expr (core_wrap S 1))] = Inr ?g0"
    using shape by (rule Grad_init_seed)
  have seed_entry: "getitem ?g0 cost = Inr (core_wrap S 1)"
    by (simp add: getitem_def seeded_def)
  from ops have "\<forall>p \<in> set (traversal S ?g0). keeps_modes p" by simp
  then have "fst (bprop S ms ?g0) = ms" by (rule bprop_keeps_modes)
  with bp have run: "bprop S ms ?g0 = (ms, Inr g1)"
    by (simp add: prod_eq_iff)
  from ops have "\<forall>p \<in> set (traversal S ?g0). keeps_entry cost p" by simp
  then have "Grad_map g1 (ident cost) = Grad_map ?g0 (ident cost)"
    using run by (rule bprop_keeps_entry)
  then have entry: "getitem g1 cost = Inr (core_wrap S 1)"
    by (simp add: getitem_def seeded_def)
  have acc: "grad S ms cost None None = (ms, Inr (Accumulator g1))"
    using mode init run by (simp add: grad_def)
  have expr: "grad S ms cost (Some cost) None =
           (ms, Inr (Expression
                  (if m = BuildEval then node_compute S (core_wrap S 1) else core_wrap S 1)))"
    using mode init run entry by (simp add: grad_def call_def)
  from init seed_entry acc entry expr show ?thesis by simp
qed

theorem grad_default_seed_witness:
  "current_mode [BuildEval] = Inr BuildEval \<and> BuildEval \<noteq> Eval \<and>
   passes_shape_rules ex_cost (core_wrap ex_services 1) \<and>
   traversal ex_services (seeded ex_services ex_cost 1) = [ex_op1, ex_op2] \<and>
   keeps_modes ex_op1 \<and> keeps_entry ex_cost ex_op1 \<and>
   keeps_modes ex_op2 \<and> keeps_entry ex_cost ex_op2 \<and>
   snd (bprop ex_services [BuildEval] (seeded ex_services ex_cost 1)) = Inr ex_final \<and>
   Grad_init ex_services [(ex_cost, Expr ex_one)] =
     Inr \<lparr>Grad_map = [3 \<mapsto> ex_one], Grad_outputs = [ex_cost]\<rparr> \<and>
   grad ex_services [BuildEval] ex_cost None None = ([BuildEval], Inr (Accumulator ex_final)) \<and>
   getitem ex_final ex_cost = Inr ex_one \<and>
   grad ex_services [BuildEval] ex_cost (Some ex_cost) None = ([BuildEval], Inr (Expression ex_one))"
proof -
  have m: "current_mode [BuildEval] = Inr BuildEval" "BuildEval \<noteq> Eval"
    by simp_all
  have sh: "passes_shape_rules ex_cost (core_wrap ex_services 1)"
    by (simp add: passes_shape_rules_def ex_cost_def)
  have ops: "\<forall>p \<in> set (traversal ex_services (seeded ex_services ex_cost 1)).
      keeps_modes p \<and> keeps_entry ex_cost p"
    using ex_pass_op [of ex_x ex_cost ex_op1 ex_values ex_h]
      ex_pass_op [of ex_h ex_cost ex_op2 ex_values ex_cost]
    by (simp add: ex_traversal ex_op1_def ex_op2_def ex_x_def ex_h_def ex_cost_def)
  have bp: "snd (bprop ex_services [BuildEval] (seeded ex_services ex_cost 1)) = Inr ex_final"
    by (simp add: ex_bprop)
  have one: "core_wrap ex_services 1 = ex_one"
    by (simp add: ex_wrap ex_one_def)
  from grad_default_seed [OF m sh ops bp] m sh ops bp show ?thesis
    by (simp add: one ex_compute_one seeded_def ex_cost_def ex_traversal)
qed

text \<open>
  C7. Outside \<open>eval\<close> mode, once the accumulator is seeded and the backward pass
  has returned: without \<open>param\<close>, \<open>grad\<close> returns the accumulator; with
  \<open>param\<close>, it returns what \<open>__call__\<close> gives for \<open>param\<close>, which is the
  lookup of \<open>param\<close> (its failure included), computed exactly when the current mode
  is \<open>build_eval\<close> and untouched in every other mode.
\<close>

theorem grad_returns:
  assumes mode: "current_mode ms = Inr m" "m \<noteq> Eval"
    and seed: "Grad_init S [(cost, Expr (core_wrap S (case cost_grad of None \<Rightarrow> 1 | Some c \<Rightarrow> c)))] = Inr g0"
    and bp: "bprop S ms g0 = (ms', Inr g1)"
  shows "grad S ms cost None cost_grad = (ms', Inr (Accumulator g1)) \<and>
         grad S ms cost (Some p) cost_grad =
           (ms', case call S ms' g1 p of Inl e \<Rightarrow> Inl e | Inr x \<Rightarrow> Inr (Expression x)) \<and>
         (\<forall>m'. current_mode ms' = Inr m' \<longrightarrow>
            call S ms' g1 p =
              (case getitem g1 p of
                 Inl e \<Rightarrow> Inl e
               | Inr x \<Rightarrow> Inr (if m' = BuildEval then node_compute S x else x)))"
  using assms by (auto simp add: grad_def call_def split: sum.splits)

theorem grad_returns_witness:
  "current_mode [Build] = Inr Build \<and> Build \<noteq> Eval \<and>
   Grad_init ex_services [(ex_cost, Expr (core_wrap ex_services 1))] =
     Inr (seeded ex_services ex_cost 1) \<and>
   bprop ex_services [Build] (seeded ex_services ex_cost 1) = ([Build], Inr ex_final) \<and>
   grad ex_services [Build] ex_cost None None = ([Build], Inr (Accumulator ex_final)) \<and>
   grad ex_services [Build] ex_cost (Some ex_x) None = ([Build], Inr (Expression ex_one)) \<and>
   call ex_services [Build] ex_final ex_x = Inr ex_one \<and>
   grad ex_services [Build] ex_cost (Some ex_r2) None = ([Build], Inl (KeyError 7))"
proof -
  have m: "current_mode [Build] = Inr Build" "Build \<noteq> Eval"
    by simp_all
  have init: "Grad_init ex_services [(ex_cost, Expr (core_wrap ex_services
                 (case None of None \<Rightarrow> 1 | Some c \<Rightarrow> c)))] = Inr (seeded ex_services ex_cost 1)"
    by (simp add: Grad_init_seed passes_shape_rules_def ex_cost_def)
  have bp: "bprop ex_services [Build] (seeded ex_services ex_cost 1) = ([Build], Inr ex_final)"
    by (rule ex_bprop)
  have e: "getitem ex_final ex_x = Inr ex_one" "getitem ex_final ex_r2 = Inl (KeyError 7)"
    by (simp_all add: getitem_def ex_final_def ex_x_def ex_r2_def)
  from grad_returns [OF m init bp, of ex_x] grad_returns [OF m init bp, of ex_r2] m init bp
  show ?thesis
    by (simp add: e)
qed

section \<open>Additivity\<close>












end
